theory Spec2Isabelle
  imports Main "HOL-Library.Word" "HOL-Library.Multiset"
begin

section \<open>Timer entries: \<^verbatim>\<open>struct timer_info\<close>\<close>

text \<open>
  The header \<^verbatim>\<open>iomgr_timer.hpp\<close> declares the entry type \<^verbatim>\<open>timer_info\<close> with its two
  constructors, the ordering \<^verbatim>\<open>compare_timer\<close>, the queue type \<^verbatim>\<open>timer_heap_t\<close>, the handle
  type \<^verbatim>\<open>timer_handle_t\<close> and the classes \<^verbatim>\<open>timer\<close> and \<^verbatim>\<open>timer_epoll\<close>.

  \<^item> \<^verbatim>\<open>std::chrono::steady_clock::time_point\<close> is a signed 64-bit count of nanoseconds
    since the clock's epoch: a \<open>64 word\<close>, read with \<open>sint\<close>.
  \<^item> \<^verbatim>\<open>timer_callback_t\<close> is \<^verbatim>\<open>std::function<void(void*)>\<close>: \<open>None\<close> is the empty function
    (\<^verbatim>\<open>nullptr\<close>), \<open>Some k\<close> the callable number \<open>k\<close>.
  \<^item> \<^verbatim>\<open>void*\<close> and \<^verbatim>\<open>timer*\<close> are 64-bit addresses, \<open>0\<close> being \<^verbatim>\<open>nullptr\<close>.
\<close>

type_synonym time_point = "64 word"
type_synonym timer_callback_t = "nat option"
type_synonym void_ptr = "64 word"
type_synonym timer_ptr = "64 word"

record timer_info =
  expiry_time :: time_point
  cb :: timer_callback_t
  context_p :: void_ptr
  parent_timer :: timer_ptr

text \<open>
  \<^verbatim>\<open>timer_info(timer* t) { parent_timer = t; }\<close>: the other members keep their default
  initialisers (\<^verbatim>\<open>cb = nullptr\<close>, \<^verbatim>\<open>context = nullptr\<close>, the epoch for \<^verbatim>\<open>expiry_time\<close>).
\<close>

definition timer_info_parent :: "timer_ptr \<Rightarrow> timer_info" where
  "timer_info_parent t = \<lparr>expiry_time = 0, cb = None, context_p = 0, parent_timer = t\<rparr>"

text \<open>
  \<^verbatim>\<open>timer_info(uint64_t nanos_after, void* cookie, timer_callback_t&& timer_fn, timer* t)\<close>.
  The reading of \<^verbatim>\<open>steady_clock::now()\<close> is the argument \<open>now\<close>.
  \<^verbatim>\<open>std::chrono::nanoseconds(nanos_after)\<close> converts the unsigned 64-bit argument to the
  signed 64-bit representation of the duration, which keeps the bits; the sum is taken in
  that representation, so \<open>+\<close> on \<open>64 word\<close> is the addition the machine performs.
\<close>

definition timer_info_ctor ::
  "time_point \<Rightarrow> 64 word \<Rightarrow> void_ptr \<Rightarrow> timer_callback_t \<Rightarrow> timer_ptr \<Rightarrow> timer_info" where
  "timer_info_ctor now nanos_after cookie timer_fn t =
     \<lparr>expiry_time = now + nanos_after, cb = timer_fn, context_p = cookie, parent_timer = t\<rparr>"

text \<open>
  \<^verbatim>\<open>compare_timer::operator()\<close>: \<^verbatim>\<open>ti1.expiry_time > ti2.expiry_time\<close>, a comparison of two
  signed 64-bit counts.
\<close>

definition compare_timer :: "timer_info \<Rightarrow> timer_info \<Rightarrow> bool" where
  "compare_timer ti1 ti2 = (expiry_time ti2 <s expiry_time ti1)"

section \<open>The queue \<^verbatim>\<open>timer_heap_t\<close> and the handle \<^verbatim>\<open>timer_handle_t\<close>\<close>

text \<open>
  \<^verbatim>\<open>timer_heap_t\<close> is \<^verbatim>\<open>boost::heap::binomial_heap<timer_info, compare<compare_timer>>\<close>.
  The heap is a library type: what the header fixes is the element type and the
  comparator. The model keeps the live nodes as a list of handle and entry, in the order
  they were pushed, with the counter that numbers the next node. \<open>top\<close> is a node that
  \<open>compare_timer\<close> ranks below no other node, which with this comparator is a node of
  least expiry. \<^verbatim>\<open>top()\<close> and \<^verbatim>\<open>pop()\<close> on an empty heap are outside the library's
  contract: \<open>heap_top\<close> is \<open>None\<close> there and \<open>heap_pop\<close> leaves the heap as it is.

  Modelled from the spec: among nodes of equal expiry the header fixes no order (the
  comparator cannot tell them apart); \<open>top_node\<close> takes the one pushed first, which is the
  spec's tie rule for the Deadline Queue.
\<close>

type_synonym heap_handle = nat

record timer_heap_t =
  nodes :: "(heap_handle \<times> timer_info) list"
  fresh :: heap_handle

definition heap_empty :: timer_heap_t where
  "heap_empty = \<lparr>nodes = [], fresh = 0\<rparr>"

definition heap_entries :: "timer_heap_t \<Rightarrow> timer_info list" where
  "heap_entries h = map snd (nodes h)"

definition heap_push :: "timer_info \<Rightarrow> timer_heap_t \<Rightarrow> heap_handle \<times> timer_heap_t" where
  "heap_push ti h =
     (fresh h, \<lparr>nodes = nodes h @ [(fresh h, ti)], fresh = Suc (fresh h)\<rparr>)"

fun top_node :: "(heap_handle \<times> timer_info) list \<Rightarrow> (heap_handle \<times> timer_info) option" where
  "top_node [] = None"
| "top_node (n # ns) =
     (case top_node ns of
        None \<Rightarrow> Some n
      | Some m \<Rightarrow> if compare_timer (snd n) (snd m) then Some m else Some n)"

definition heap_top :: "timer_heap_t \<Rightarrow> timer_info option" where
  "heap_top h = map_option snd (top_node (nodes h))"

definition heap_pop :: "timer_heap_t \<Rightarrow> timer_heap_t" where
  "heap_pop h =
     (case top_node (nodes h) of
        None \<Rightarrow> h
      | Some n \<Rightarrow> h\<lparr>nodes := remove1 n (nodes h)\<rparr>)"

text \<open>
  \<^verbatim>\<open>struct io_device_t\<close> is only forward-declared in the header.

  Modelled from the spec: an OS timer descriptor has a number, the deadline it is armed
  for (\<open>None\<close> when disarmed) and, for a recurring timer, its period, callback and context.
\<close>

record io_device_t =
  fd :: nat
  armed :: "time_point option"
  period :: "64 word option"
  dev_cb :: timer_callback_t
  dev_context :: void_ptr

text \<open>
  \<^verbatim>\<open>timer_handle_t\<close> is \<^verbatim>\<open>std::variant<timer_heap_t::handle_type, std::shared_ptr<io_device_t>>\<close>;
  a shared pointer is \<open>None\<close> when null. \<^verbatim>\<open>null_timer_handle\<close> holds the null descriptor.
\<close>

datatype timer_handle_t =
  Heap_handle heap_handle
| Iodev_handle "io_device_t option"

definition null_timer_handle :: timer_handle_t where
  "null_timer_handle = Iodev_handle None"

section \<open>The classes \<^verbatim>\<open>timer\<close> and \<^verbatim>\<open>timer_epoll\<close>\<close>

text \<open>
  The members of \<^verbatim>\<open>timer\<close>, the mutex left out (the model is sequential), and those
  \<^verbatim>\<open>timer_epoll\<close> adds.
\<close>

record timer =
  m_timer_list :: timer_heap_t
  m_is_thread_local :: bool
  m_stopped :: bool

record timer_epoll = timer +
  m_common_timer_io_dev :: "io_device_t option"
  m_recurring_timer_iodevs :: "io_device_t set"

text \<open>
  \<^verbatim>\<open>timer(bool is_thread_local) { m_is_thread_local = is_thread_local; }\<close> with the member
  initialisers \<^verbatim>\<open>bool m_stopped = false;\<close> and the default-constructed \<^verbatim>\<open>m_timer_list\<close>.
\<close>

definition timer_ctor :: "bool \<Rightarrow> timer" where
  "timer_ctor is_thread_local =
     \<lparr>m_timer_list = heap_empty, m_is_thread_local = is_thread_local, m_stopped = False\<rparr>"

text \<open>
  The constructor \<^verbatim>\<open>timer_epoll(bool is_per_thread)\<close> is declared in the header and defined
  out of line; neither its initialiser list nor its body is modelled.
\<close>

section \<open>Draining the queue\<close>

text \<open>
  The header has no function that drains the queue; the loop lives in the notification
  handler, which is defined out of line.

  Modelled from the spec: \<open>pop_all_due(now)\<close> removes and returns every entry whose expiry
  is at most \<open>now\<close>. It is written as the loop the heap's interface allows: while the top
  entry is due (\<^verbatim>\<open>expiry_time <= now\<close>, a signed comparison), take it and pop.
\<close>

function pop_all_due :: "time_point \<Rightarrow> timer_heap_t \<Rightarrow> timer_info list \<times> timer_heap_t" where
  "pop_all_due now h =
     (case heap_top h of
        None \<Rightarrow> ([], h)
      | Some ti \<Rightarrow>
          if expiry_time ti \<le>s now
          then (case pop_all_due now (heap_pop h) of (due, h') \<Rightarrow> (ti # due, h'))
          else ([], h))"
  by pat_completeness auto
termination
proof (relation "measure (\<lambda>(now, h). length (nodes h))")
  show "wf (measure (\<lambda>(now, h). length (nodes h)))"
    by simp
next
  fix now :: time_point and h :: timer_heap_t and ti :: timer_info
  assume top: "heap_top h = Some ti"
  then obtain n where n: "top_node (nodes h) = Some n"
    by (auto simp: heap_top_def)
  have "m \<in> set ns" if "top_node ns = Some m" for ns m
    using that by (induction ns arbitrary: m) (auto split: option.splits if_splits)
  with n have "n \<in> set (nodes h)"
    by simp
  then have "length (remove1 n (nodes h)) < length (nodes h)"
    by (simp add: length_remove1) (cases "nodes h"; simp)
  with n show "((now, heap_pop h), (now, h)) \<in> measure (\<lambda>(now, h). length (nodes h))"
    by (simp add: heap_pop_def)
qed

declare pop_all_due.simps [simp del]

text \<open>
  Pushing a list of entries one after the other, as a sequence of one-shot insertions
  does.
\<close>

definition push_all :: "timer_info list \<Rightarrow> timer_heap_t \<Rightarrow> timer_heap_t" where
  "push_all tis h = fold (\<lambda>ti q. snd (heap_push ti q)) tis h"

section \<open>Scheduling\<close>

text \<open>
  \<^verbatim>\<open>timer_epoll::schedule\<close> is declared in the header
  (\<^verbatim>\<open>timer_handle_t schedule(uint64_t nanos_after, bool recurring, void* cookie,
  timer_callback_t&& timer_fn)\<close>) and defined out of line. The delay, there and in the
  constructor of \<^verbatim>\<open>timer_info\<close>, is declared \<^verbatim>\<open>uint64_t\<close>: \<open>delay_ns\<close> is the number
  such an argument denotes, and \<open>negative_delay\<close> the test for a negative delay on it.
\<close>

definition delay_ns :: "64 word \<Rightarrow> int" where
  "delay_ns nanos_after = uint nanos_after"

definition negative_delay :: "64 word \<Rightarrow> bool" where
  "negative_delay nanos_after = (delay_ns nanos_after < 0)"

datatype sched_error =
  Stopped_scheduler
| Negative_delay
| Empty_callback
| Resource_exhaustion

definition new_descriptor :: "nat \<Rightarrow> io_device_t" where
  "new_descriptor k = \<lparr>fd = k, armed = None, period = None, dev_cb = None, dev_context = 0\<rparr>"

definition becomes_minimum :: "timer_info \<Rightarrow> timer_heap_t \<Rightarrow> bool" where
  "becomes_minimum ti h =
     (case heap_top h of None \<Rightarrow> True | Some m \<Rightarrow> compare_timer m ti)"

text \<open>
  Modelled from the spec: the body of \<open>schedule\<close>. A stopped scheduler, a negative delay
  and an empty callback are rejected with no change of state. A recurring request takes
  a new descriptor from the operating system (\<open>os\<close> is the number of the descriptor it
  hands out, \<open>None\<close> when it has none left), arms it with the period and adds it to the
  recurring set. A one-shot request builds the entry with the constructor of the
  header, pushes it on the queue and returns the queue handle; the shared descriptor is
  created on first use and armed to the entry's expiry when the entry becomes the new
  minimum. \<open>this\<close> is the address of the scheduler, \<open>now\<close> the clock at the call.
\<close>

definition schedule ::
  "timer_ptr \<Rightarrow> time_point \<Rightarrow> nat option \<Rightarrow> timer_epoll \<Rightarrow> 64 word \<Rightarrow> bool \<Rightarrow> void_ptr \<Rightarrow>
   timer_callback_t \<Rightarrow> sched_error + timer_handle_t \<times> timer_epoll" where
  "schedule this now os s nanos_after recurring cookie timer_fn =
     (if m_stopped s then Inl Stopped_scheduler
      else if negative_delay nanos_after then Inl Negative_delay
      else if timer_fn = None then Inl Empty_callback
      else if recurring then
        (case os of
           None \<Rightarrow> Inl Resource_exhaustion
         | Some k \<Rightarrow>
             let dev = \<lparr>fd = k, armed = Some (now + nanos_after), period = Some nanos_after,
                        dev_cb = timer_fn, dev_context = cookie\<rparr>
             in Inr (Iodev_handle (Some dev),
                     s\<lparr>m_recurring_timer_iodevs := insert dev (m_recurring_timer_iodevs s)\<rparr>))
      else
        (case (case m_common_timer_io_dev s of
                 Some d \<Rightarrow> Some d
               | None \<Rightarrow> map_option new_descriptor os) of
           None \<Rightarrow> Inl Resource_exhaustion
         | Some d \<Rightarrow>
             let ti = timer_info_ctor now nanos_after cookie timer_fn this;
                 pushed = heap_push ti (m_timer_list s);
                 d' = (if becomes_minimum ti (m_timer_list s)
                       then d\<lparr>armed := Some (expiry_time ti)\<rparr> else d)
             in Inr (Heap_handle (fst pushed),
                     s\<lparr>m_timer_list := snd pushed, m_common_timer_io_dev := Some d'\<rparr>)))"

section \<open>Facts about the queue and the clock arithmetic\<close>

lemma top_node_mem: "top_node ns = Some n \<Longrightarrow> n \<in> set ns"
  by (induction ns arbitrary: n) (auto split: option.splits if_splits)

lemma top_node_None: "(top_node ns = None) = (ns = [])"
  by (induction ns) (auto split: option.splits)

lemma top_node_least:
  "top_node ns = Some n \<Longrightarrow> m \<in> set ns \<Longrightarrow>
   sint (expiry_time (snd n)) \<le> sint (expiry_time (snd m))"
proof (induction ns arbitrary: n)
  case Nil
  then show ?case by simp
next
  case (Cons a ns)
  show ?case
  proof (cases "top_node ns")
    case None
    with Cons.prems show ?thesis
      by (simp add: top_node_None)
  next
    case (Some b)
    with Cons.prems Cons.IH [of b] show ?thesis
      by (auto simp: compare_timer_def word_sless_alt split: if_splits)
  qed
qed

lemma heap_top_None: "heap_top h = None \<Longrightarrow> heap_entries h = []"
  by (simp add: heap_top_def heap_entries_def top_node_None)

lemma heap_top_least:
  "heap_top h = Some ti \<Longrightarrow> x \<in> set (heap_entries h) \<Longrightarrow>
   sint (expiry_time ti) \<le> sint (expiry_time x)"
  by (auto simp: heap_top_def heap_entries_def dest: top_node_least)

lemma heap_pop_entries:
  "heap_top h = Some ti \<Longrightarrow>
   mset (heap_entries h) = add_mset ti (mset (heap_entries (heap_pop h)))"
proof -
  assume "heap_top h = Some ti"
  then obtain n where n: "top_node (nodes h) = Some n" "snd n = ti"
    by (auto simp: heap_top_def)
  then have "n \<in># mset (nodes h)"
    by (simp add: top_node_mem)
  then have "mset (nodes h) = add_mset n (mset (remove1 n (nodes h)))"
    by simp
  then have "image_mset snd (mset (nodes h)) = image_mset snd (add_mset n (mset (remove1 n (nodes h))))"
    by (rule arg_cong)
  with n show ?thesis
    by (simp add: heap_entries_def heap_pop_def del: mset_remove1)
qed

lemma pop_all_due_partition:
  "mset (fst (pop_all_due now h)) + mset (heap_entries (snd (pop_all_due now h)))
   = mset (heap_entries h)"
proof (induction now h rule: pop_all_due.induct)
  case (1 now h)
  show ?case
  proof (cases "heap_top h")
    case None
    then show ?thesis
      by (simp add: pop_all_due.simps [of now h])
  next
    case (Some ti)
    show ?thesis
    proof (cases "expiry_time ti \<le>s now")
      case True
      with Some "1.IH" [of ti] heap_pop_entries [of h ti] show ?thesis
        by (simp add: pop_all_due.simps [of now h] case_prod_beta)
    next
      case False
      with Some show ?thesis
        by (simp add: pop_all_due.simps [of now h])
    qed
  qed
qed

lemma pop_all_due_due:
  "ti \<in> set (fst (pop_all_due now h)) \<Longrightarrow> sint (expiry_time ti) \<le> sint now"
proof (induction now h arbitrary: ti rule: pop_all_due.induct)
  case (1 now h)
  then show ?case
    by (auto simp: pop_all_due.simps [of now h] word_sle_eq case_prod_beta split: option.splits if_splits)
qed

lemma pop_all_due_rest:
  "ti \<in> set (heap_entries (snd (pop_all_due now h))) \<Longrightarrow> \<not> sint (expiry_time ti) \<le> sint now"
proof (induction now h arbitrary: ti rule: pop_all_due.induct)
  case (1 now h)
  show ?case
  proof (cases "heap_top h")
    case None
    with "1.prems" show ?thesis
      by (simp add: pop_all_due.simps [of now h] heap_top_None)
  next
    case (Some top)
    show ?thesis
    proof (cases "expiry_time top \<le>s now")
      case True
      with Some "1.IH" [of top ti] "1.prems" show ?thesis
        by (simp add: pop_all_due.simps [of now h] case_prod_beta)
    next
      case False
      with Some "1.prems" have "ti \<in> set (heap_entries h)"
        by (simp add: pop_all_due.simps [of now h])
      with Some have "sint (expiry_time top) \<le> sint (expiry_time ti)"
        by (rule heap_top_least)
      with False show ?thesis
        by (simp add: word_sle_eq)
    qed
  qed
qed

lemma pop_all_due_sorted:
  "sorted (map (\<lambda>ti. sint (expiry_time ti)) (fst (pop_all_due now h)))"
proof (induction now h rule: pop_all_due.induct)
  case (1 now h)
  show ?case
  proof (cases "heap_top h")
    case None
    then show ?thesis
      by (simp add: pop_all_due.simps [of now h])
  next
    case (Some top)
    show ?thesis
    proof (cases "expiry_time top \<le>s now")
      case True
      have "sint (expiry_time top) \<le> sint (expiry_time x)"
        if "x \<in> set (fst (pop_all_due now (heap_pop h)))" for x
      proof -
        from that have "x \<in># mset (fst (pop_all_due now (heap_pop h))) + mset (heap_entries (snd (pop_all_due now (heap_pop h))))"
          by simp
        then have "x \<in># mset (heap_entries (heap_pop h))"
          by (simp only: pop_all_due_partition)
        with heap_pop_entries [OF Some] have "x \<in> set (heap_entries h)"
          by (metis in_multiset_in_set insert_iff set_mset_add_mset_insert)
        with Some show ?thesis
          by (rule heap_top_least)
      qed
      with True Some "1.IH" [of top] show ?thesis
        by (simp add: pop_all_due.simps [of now h] case_prod_beta)
    next
      case False
      with Some show ?thesis
        by (simp add: pop_all_due.simps [of now h])
    qed
  qed
qed

lemma push_all_entries: "heap_entries (push_all tis h) = heap_entries h @ tis"
  unfolding push_all_def
  by (induction tis arbitrary: h) (simp_all add: heap_push_def heap_entries_def)

lemma filter_mset_all: "\<forall>x\<in>set xs. P x \<Longrightarrow> filter_mset P (mset xs) = mset xs"
  by (induction xs) simp_all

lemma filter_mset_none: "\<forall>x\<in>set xs. \<not> P x \<Longrightarrow> filter_mset P (mset xs) = {#}"
  by (induction xs) simp_all

lemma pop_all_due_returned:
  "mset (fst (pop_all_due now h)) =
   filter_mset (\<lambda>ti. sint (expiry_time ti) \<le> sint now) (mset (heap_entries h))"
proof -
  let ?P = "\<lambda>ti. sint (expiry_time ti) \<le> sint now"
  let ?due = "fst (pop_all_due now h)" and ?rest = "heap_entries (snd (pop_all_due now h))"
  have "filter_mset ?P (mset (heap_entries h)) = filter_mset ?P (mset ?due + mset ?rest)"
    by (simp only: pop_all_due_partition)
  also have "\<dots> = filter_mset ?P (mset ?due) + filter_mset ?P (mset ?rest)"
    by simp
  also have "filter_mset ?P (mset ?due) = mset ?due"
    by (rule filter_mset_all) (simp add: pop_all_due_due)
  also have "filter_mset ?P (mset ?rest) = {#}"
    by (rule filter_mset_none) (simp add: pop_all_due_rest)
  finally show ?thesis
    by simp
qed

lemma pop_all_due_kept:
  "mset (heap_entries (snd (pop_all_due now h))) =
   filter_mset (\<lambda>ti. \<not> sint (expiry_time ti) \<le> sint now) (mset (heap_entries h))"
proof -
  let ?P = "\<lambda>ti. \<not> sint (expiry_time ti) \<le> sint now"
  let ?due = "fst (pop_all_due now h)" and ?rest = "heap_entries (snd (pop_all_due now h))"
  have "filter_mset ?P (mset (heap_entries h)) = filter_mset ?P (mset ?due + mset ?rest)"
    by (simp only: pop_all_due_partition)
  also have "\<dots> = filter_mset ?P (mset ?due) + filter_mset ?P (mset ?rest)"
    by simp
  also have "filter_mset ?P (mset ?due) = {#}"
    by (rule filter_mset_none) (simp add: pop_all_due_due)
  also have "filter_mset ?P (mset ?rest) = mset ?rest"
    by (rule filter_mset_all) (simp add: pop_all_due_rest)
  finally show ?thesis
    by simp
qed

lemma pop_all_due_round_trip:
  assumes d: "distinct (map expiry_time tis)"
    and due: "\<forall>ti\<in>set tis. sint (expiry_time ti) \<le> sint now"
  shows "mset (fst (pop_all_due now (push_all tis heap_empty))) = mset tis"
    and "sorted_wrt (<) (map (\<lambda>ti. sint (expiry_time ti)) (fst (pop_all_due now (push_all tis heap_empty))))"
proof -
  let ?due = "fst (pop_all_due now (push_all tis heap_empty))"
  let ?key = "\<lambda>ti. sint (expiry_time ti)"
  have "heap_entries heap_empty = []"
    by (simp add: heap_entries_def heap_empty_def)
  then have ents: "heap_entries (push_all tis heap_empty) = tis"
    by (simp add: push_all_entries)
  show m: "mset ?due = mset tis"
    using due by (simp add: pop_all_due_returned ents filter_mset_all)
  have "distinct (map ?key tis)"
  proof -
    have "map ?key tis = map sint (map expiry_time tis)"
      by simp
    moreover have "distinct (map sint (map expiry_time tis))"
    proof (subst distinct_map, intro conjI)
      show "distinct (map expiry_time tis)"
        by (rule d)
      show "inj_on sint (set (map expiry_time tis))"
        by (rule inj_onI) (rule signed_word_eqI)
    qed
    ultimately show ?thesis
      by (simp only:)
  qed
  moreover have "mset (map ?key ?due) = mset (map ?key tis)"
    using m by (metis mset_map)
  ultimately have "distinct (map ?key ?due)"
    by (metis mset_eq_imp_distinct_iff)
  with pop_all_due_sorted [of now "push_all tis heap_empty"] show "sorted_wrt (<) (map ?key ?due)"
    by (simp add: strict_sorted_iff)
qed

lemma sint_of_small: "uint (d :: 64 word) < 2 ^ 63 \<Longrightarrow> sint d = uint d"
proof -
  assume a: "uint d < 2 ^ 63"
  have "sint d = signed_take_bit 63 (uint d)"
    by (simp add: sint_uint)
  also have "\<dots> = uint d"
  proof (rule signed_take_bit_int_eq_self)
    show "- (2 ^ 63) \<le> uint d"
      by (rule order_trans [of _ 0]) simp_all
    show "uint d < 2 ^ 63"
      by (rule a)
  qed
  finally show ?thesis .
qed

lemma sint_add_in_range:
  assumes "uint (d :: 64 word) < 2 ^ 63" and "sint (now :: 64 word) + uint d < 2 ^ 63"
  shows "sint (now + d) = sint now + uint d"
proof -
  have d: "sint d = uint d"
    using assms(1) by (rule sint_of_small)
  have "sint (now + d) = signed_take_bit 63 (sint now + sint d)"
    by (simp add: sint_word_ariths)
  also have "\<dots> = sint now + sint d"
  proof (rule signed_take_bit_int_eq_self)
    show "- (2 ^ 63) \<le> sint now + sint d"
    proof (rule add_increasing2)
      show "0 \<le> sint d"
        by (simp add: d)
      show "- (2 ^ 63) \<le> sint now"
        using sint_ge [of now] by simp
    qed
    show "sint now + sint d < 2 ^ 63"
      using assms(2) d by simp
  qed
  finally show ?thesis
    using d by simp
qed

lemma heap_push_entries:
  "heap_entries (snd (heap_push ti h)) = heap_entries h @ [ti]"
  by (simp add: heap_push_def heap_entries_def)

lemma heap_push_node:
  "(fst (heap_push ti h), ti) \<in> set (nodes (snd (heap_push ti h)))"
  by (simp add: heap_push_def)

section \<open>The comparator\<close>

text \<open>
  C10. \<open>compare_timer\<close> is the reference ordering on expiry times read as signed
  integers: it holds exactly when the first entry expires strictly later than the second.
  It does not look at the callback, the context or the parent timer, and of two entries
  with equal expiry neither is ranked before the other.
\<close>

theorem compare_timer_reference:
  "compare_timer ti1 ti2 = (sint (expiry_time ti2) < sint (expiry_time ti1))
   \<and> compare_timer (ti1\<lparr>cb := f1, context_p := c1, parent_timer := p1\<rparr>)
        (ti2\<lparr>cb := f2, context_p := c2, parent_timer := p2\<rparr>) = compare_timer ti1 ti2
   \<and> (expiry_time ti1 = expiry_time ti2 \<longrightarrow>
        \<not> compare_timer ti1 ti2 \<and> \<not> compare_timer ti2 ti1)"
  by (simp add: compare_timer_def word_sless_alt)

theorem compare_timer_reference_witness:
  "expiry_time (timer_info_ctor 100 50 1 (Some 1) 9) = expiry_time (timer_info_ctor 120 30 2 (Some 2) 9)
   \<and> \<not> compare_timer (timer_info_ctor 100 50 1 (Some 1) 9) (timer_info_ctor 120 30 2 (Some 2) 9)
   \<and> \<not> compare_timer (timer_info_ctor 120 30 2 (Some 2) 9) (timer_info_ctor 100 50 1 (Some 1) 9)"
  using compare_timer_reference
    [of "timer_info_ctor 100 50 1 (Some 1) 9" "timer_info_ctor 120 30 2 (Some 2) 9"]
  by (simp add: timer_info_ctor_def)

section \<open>Construction of the base class\<close>

text \<open>
  The constructor of \<^verbatim>\<open>timer\<close> leaves the object active (\<open>m_stopped\<close> is false) with a
  queue that holds no entry; its argument decides the scope flag and nothing else.
\<close>

lemma timer_ctor_fields:
  "m_stopped (timer_ctor b) = False
   \<and> m_is_thread_local (timer_ctor b) = b
   \<and> m_timer_list (timer_ctor b) = heap_empty
   \<and> heap_entries (m_timer_list (timer_ctor b)) = []
   \<and> timer_ctor b = (timer_ctor b')\<lparr>m_is_thread_local := b\<rparr>"
  by (simp add: timer_ctor_def heap_empty_def heap_entries_def)

section \<open>The delay argument\<close>

text \<open>
  C9. The delay of \<open>schedule\<close> is an unsigned 64-bit argument, so the number it denotes
  is never negative: the precondition \<open>delay_ns \<ge> 0\<close> holds for every argument value, and
  the test for a negative delay fails on every argument value, so a rejection guarded by
  it is never reached.
\<close>

theorem schedule_delay_never_negative:
  "0 \<le> delay_ns nanos_after \<and> \<not> negative_delay nanos_after"
  by (simp add: delay_ns_def negative_delay_def)

lemma schedule_never_rejects_delay:
  "schedule this now os s nanos_after recurring cookie timer_fn \<noteq> Inl Negative_delay"
  by (simp add: delay_ns_def negative_delay_def schedule_def Let_def split: option.splits)

section \<open>Draining in deadline order\<close>

text \<open>
  C2. For every time \<open>now\<close> and every queue, \<open>pop_all_due now\<close> returns exactly the entries
  whose expiry is at most \<open>now\<close> and leaves exactly the others in the queue, and the
  entries it returns are in ascending order of expiry. In particular, after pushing \<open>N\<close>
  entries with pairwise distinct expiry on the empty queue, draining at a time that none
  of them exceeds returns all \<open>N\<close> of them in strictly ascending order of expiry.
\<close>

theorem pop_all_due_exact:
  "mset (fst (pop_all_due now h)) =
     filter_mset (\<lambda>ti. sint (expiry_time ti) \<le> sint now) (mset (heap_entries h))
   \<and> mset (heap_entries (snd (pop_all_due now h))) =
     filter_mset (\<lambda>ti. \<not> sint (expiry_time ti) \<le> sint now) (mset (heap_entries h))
   \<and> sorted (map (\<lambda>ti. sint (expiry_time ti)) (fst (pop_all_due now h)))
   \<and> (distinct (map expiry_time tis) \<and> (\<forall>ti\<in>set tis. sint (expiry_time ti) \<le> sint now) \<longrightarrow>
        length (fst (pop_all_due now (push_all tis heap_empty))) = length tis
        \<and> mset (fst (pop_all_due now (push_all tis heap_empty))) = mset tis
        \<and> sorted_wrt (<) (map (\<lambda>ti. sint (expiry_time ti))
             (fst (pop_all_due now (push_all tis heap_empty)))))"
proof -
  have "length (fst (pop_all_due now (push_all tis heap_empty))) = length tis"
    if "mset (fst (pop_all_due now (push_all tis heap_empty))) = mset tis"
    using that by (rule mset_eq_length)
  then show ?thesis
    using pop_all_due_returned pop_all_due_kept pop_all_due_sorted pop_all_due_round_trip
    by blast
qed

theorem pop_all_due_exact_witness:
  "distinct (map expiry_time
     [timer_info_ctor 0 30 1 (Some 1) 9, timer_info_ctor 0 10 2 (Some 2) 9,
      timer_info_ctor 0 20 3 (Some 3) 9])
   \<and> sint (expiry_time (timer_info_ctor 0 30 1 (Some 1) 9)) \<le> sint (100 :: 64 word)
   \<and> sint (expiry_time (timer_info_ctor 0 10 2 (Some 2) 9)) \<le> sint (100 :: 64 word)
   \<and> sint (expiry_time (timer_info_ctor 0 20 3 (Some 3) 9)) \<le> sint (100 :: 64 word)
   \<and> length (fst (pop_all_due 100 (push_all
         [timer_info_ctor 0 30 1 (Some 1) 9, timer_info_ctor 0 10 2 (Some 2) 9,
          timer_info_ctor 0 20 3 (Some 3) 9] heap_empty))) = 3
   \<and> sorted_wrt (<) (map (\<lambda>ti. sint (expiry_time ti))
         (fst (pop_all_due 100 (push_all
           [timer_info_ctor 0 30 1 (Some 1) 9, timer_info_ctor 0 10 2 (Some 2) 9,
            timer_info_ctor 0 20 3 (Some 3) 9] heap_empty))))"
proof -
  let ?tis = "[timer_info_ctor 0 30 1 (Some 1) 9, timer_info_ctor 0 10 2 (Some 2) 9,
               timer_info_ctor 0 20 3 (Some 3) 9]"
  have hyp: "distinct (map expiry_time ?tis)
      \<and> (\<forall>ti\<in>set ?tis. sint (expiry_time ti) \<le> sint (100 :: 64 word))"
    by (simp add: timer_info_ctor_def)
  with pop_all_due_exact [of 100 heap_empty ?tis] show ?thesis
    by simp
qed

text \<open>
  The same three entries drained at time 25: the entries due at 10 and 20 come out, in
  that order, and the entry due at 30 stays.
\<close>

lemma pop_all_due_example:
  "pop_all_due 25 (push_all
     [timer_info_ctor 0 30 1 (Some 1) 9, timer_info_ctor 0 10 2 (Some 2) 9,
      timer_info_ctor 0 20 3 (Some 3) 9] heap_empty)
   = ([timer_info_ctor 0 10 2 (Some 2) 9, timer_info_ctor 0 20 3 (Some 3) 9],
      \<lparr>nodes = [(0, timer_info_ctor 0 30 1 (Some 1) 9)], fresh = 3\<rparr>)"
  by (simp add: pop_all_due.simps push_all_def heap_push_def heap_empty_def heap_top_def
      heap_pop_def timer_info_ctor_def compare_timer_def word_sle_eq word_sless_alt)

section \<open>One-shot scheduling\<close>

text \<open>
  C3, within the range of the clock. On an active scheduler that has or can obtain its shared descriptor,
  for every delay \<open>d\<close> below \<open>2^63\<close> nanoseconds for which \<open>now + d\<close> stays within the signed
  64-bit range of the clock, every cookie \<open>c\<close> and every non-empty callback \<open>f\<close>, a
  non-recurring \<open>schedule(d, false, c, f)\<close> inserts exactly one entry into the queue; the
  entry's expiry is the clock at the call plus \<open>d\<close> nanoseconds, its callback is \<open>f\<close>, its
  context is \<open>c\<close> and its parent is the scheduler; the call returns the queue alternative
  of the handle, which names the new entry.
\<close>

theorem schedule_one_shot:
  assumes active: "\<not> m_stopped s"
    and callable: "timer_fn \<noteq> None"
    and descriptor: "m_common_timer_io_dev s \<noteq> None \<or> os \<noteq> None"
    and small: "delay_ns d < 2 ^ 63"
    and in_range: "sint now + delay_ns d < 2 ^ 63"
  shows "\<exists>hdl s' ti.
      schedule this now os s d False cookie timer_fn = Inr (Heap_handle hdl, s')
      \<and> mset (heap_entries (m_timer_list s')) = add_mset ti (mset (heap_entries (m_timer_list s)))
      \<and> (hdl, ti) \<in> set (nodes (m_timer_list s'))
      \<and> sint (expiry_time ti) = sint now + delay_ns d
      \<and> cb ti = timer_fn \<and> context_p ti = cookie \<and> parent_timer ti = this"
proof -
  let ?ti = "timer_info_ctor now d cookie timer_fn this"
  let ?pushed = "heap_push ?ti (m_timer_list s)"
  from descriptor obtain dev where
    dev: "(case m_common_timer_io_dev s of Some x \<Rightarrow> Some x | None \<Rightarrow> map_option new_descriptor os)
          = Some dev"
    by (cases "m_common_timer_io_dev s"; cases os) auto
  define dev' where
    "dev' = (if becomes_minimum ?ti (m_timer_list s) then dev\<lparr>armed := Some (expiry_time ?ti)\<rparr> else dev)"
  define s' where
    "s' = s\<lparr>m_timer_list := snd ?pushed, m_common_timer_io_dev := Some dev'\<rparr>"
  have nonneg: "\<not> negative_delay d"
    by (simp add: delay_ns_def negative_delay_def)
  have run: "schedule this now os s d False cookie timer_fn = Inr (Heap_handle (fst ?pushed), s')"
    using active callable nonneg dev by (simp add: schedule_def Let_def s'_def dev'_def)
  have "sint (expiry_time ?ti) = sint now + delay_ns d"
    using small in_range by (simp add: timer_info_ctor_def delay_ns_def sint_add_in_range)
  moreover have "mset (heap_entries (m_timer_list s')) = add_mset ?ti (mset (heap_entries (m_timer_list s)))"
    by (simp add: s'_def heap_push_entries)
  moreover have "(fst ?pushed, ?ti) \<in> set (nodes (m_timer_list s'))"
    by (simp add: s'_def heap_push_node)
  moreover have "cb ?ti = timer_fn \<and> context_p ?ti = cookie \<and> parent_timer ?ti = this"
    by (simp add: timer_info_ctor_def)
  ultimately show ?thesis
    using run by blast
qed

text \<open>
  The bound on the delay is needed. The constructor converts the unsigned delay to the
  signed 64-bit count of \<^verbatim>\<open>std::chrono::nanoseconds\<close>; a delay of \<open>2^63\<close> nanoseconds
  becomes \<open>- 2^63\<close>, and the entry scheduled at clock 1000 expires at \<open>1000 - 2^63\<close>, before
  the call, not at \<open>1000 + 2^63\<close>.
\<close>

theorem schedule_one_shot_counterexample:
  "(case schedule 9 1000 (Some 3)
      \<lparr>m_timer_list = heap_empty, m_is_thread_local = True, m_stopped = False,
         m_common_timer_io_dev = None, m_recurring_timer_iodevs = {}\<rparr>
      0x8000000000000000 False 5 (Some 1) of
      Inl e \<Rightarrow> False
    | Inr (hdl, s') \<Rightarrow>
        hdl = Heap_handle 0
        \<and> map (\<lambda>ti. sint (expiry_time ti)) (heap_entries (m_timer_list s'))
            = [- 9223372036854774808])
   \<and> sint (1000 :: 64 word) + delay_ns 0x8000000000000000 = 9223372036854776808"
  by (simp add: schedule_def delay_ns_def negative_delay_def heap_empty_def heap_push_def
      heap_entries_def heap_top_def becomes_minimum_def new_descriptor_def timer_info_ctor_def
      Let_def)

theorem schedule_one_shot_witness:
  "\<not> m_stopped
       \<lparr>m_timer_list = heap_empty, m_is_thread_local = True, m_stopped = False,
          m_common_timer_io_dev = None, m_recurring_timer_iodevs = {}\<rparr>
   \<and> delay_ns 50 < 2 ^ 63
   \<and> sint (1000 :: 64 word) + delay_ns 50 < 2 ^ 63
   \<and> (\<exists>hdl s' ti.
        schedule 9 1000 (Some 3)
          \<lparr>m_timer_list = heap_empty, m_is_thread_local = True, m_stopped = False,
             m_common_timer_io_dev = None, m_recurring_timer_iodevs = {}\<rparr>
          50 False 5 (Some 1)
          = Inr (Heap_handle hdl, s')
        \<and> mset (heap_entries (m_timer_list s')) = add_mset ti (mset (heap_entries heap_empty))
        \<and> (hdl, ti) \<in> set (nodes (m_timer_list s'))
        \<and> sint (expiry_time ti) = 1050
        \<and> cb ti = Some 1 \<and> context_p ti = 5 \<and> parent_timer ti = 9)"
proof -
  let ?s = "\<lparr>m_timer_list = heap_empty, m_is_thread_local = True, m_stopped = False,
             m_common_timer_io_dev = None, m_recurring_timer_iodevs = {}\<rparr>"
  have hyp: "\<not> m_stopped ?s" "delay_ns 50 < 2 ^ 63"
    "sint (1000 :: 64 word) + delay_ns 50 < 2 ^ 63"
    by (simp_all add: delay_ns_def)
  from schedule_one_shot
    [where s = ?s and timer_fn = "Some 1" and os = "Some 3" and d = 50
       and now = 1000 and this = 9 and cookie = 5, OF hyp(1) _ _ hyp(2) hyp(3)]
  show ?thesis
    using hyp by (simp add: delay_ns_def)
qed

end
